theory Spec2Isabelle
  imports Main
begin

section \<open>Job storage (backend/app/models/job\_storage.py)\<close>

text \<open>
  The two enums of the storage module. The file stores \<open>status.value\<close>, a string that
  determines the enum member, so the stored status is modelled by the member itself.
\<close>

datatype JobStatus = PENDING | PROCESSING | COMPLETED | FAILED

datatype JobType = LOGO | VIDEO | BOTH

text \<open>
  One entry of the \<open>"jobs"\<close> list of jobs.json: the dictionary built by \<open>create_job\<close>.
  A value that is \<open>None\<close> in Python is \<open>None\<close> here; timestamps are the strings
  that \<open>datetime.now().isoformat()\<close> returns.
\<close>

record job =
  job_id :: string
  prompt :: string
  job_type :: JobType
  status :: JobStatus
  logo_url :: "string option"
  video_url :: "string option"
  error_message :: "string option"
  created_at :: string
  started_at :: "string option"
  completed_at :: "string option"
  progress :: int
  user_id :: string

text \<open>
  The file jobs.json as \<open>load_jobs\<close> meets it: absent, present with a well-formed
  job list, or present and not loadable (\<open>json.load\<close> raises). \<open>load_jobs\<close> turns the
  first and the last case into the empty list.
\<close>

datatype jobs_file = Missing | Unreadable | Content "job list"

fun load_jobs :: "jobs_file \<Rightarrow> job list" where
  "load_jobs (Content js) = js"
| "load_jobs Missing = []"
| "load_jobs Unreadable = []"

text \<open>
  What the operating system does with one \<open>save_jobs\<close> call is an input of the model:
  the write goes through; or \<open>open(JOBS_FILE, 'w')\<close> raises and the file stays as it
  was; or \<open>json.dump\<close> raises after \<open>open\<close> has truncated the file, which leaves a
  file that no longer loads. In the last two cases \<open>save_jobs\<close> returns \<open>False\<close>.
\<close>

datatype write_outcome = Written | OpenFailed | DumpFailed

fun save_jobs :: "write_outcome \<Rightarrow> job list \<Rightarrow> jobs_file \<Rightarrow> bool \<times> jobs_file" where
  "save_jobs Written jobs_data f = (True, Content jobs_data)"
| "save_jobs OpenFailed jobs_data f = (False, f)"
| "save_jobs DumpFailed jobs_data f = (False, Unreadable)"

text \<open>
  The environment of one storage call: the reading of the clock
  (\<open>datetime.now().isoformat()\<close>) and the outcome of the write.
\<close>

record env =
  now :: string
  wr :: write_outcome

text \<open>\<open>create_job\<close>: the new dictionary is inserted at index 0, with no look at the ids
  already there.\<close>

definition new_job :: "string \<Rightarrow> string \<Rightarrow> string \<Rightarrow> JobType \<Rightarrow> string \<Rightarrow> job" where
  "new_job t jid prompt' jt uid =
     \<lparr>job_id = jid, prompt = prompt', job_type = jt, status = PENDING,
      logo_url = None, video_url = None, error_message = None,
      created_at = t, started_at = None, completed_at = None,
      progress = 0, user_id = uid\<rparr>"

definition create_job ::
  "env \<Rightarrow> string \<Rightarrow> string \<Rightarrow> JobType \<Rightarrow> string \<Rightarrow> jobs_file \<Rightarrow> bool \<times> jobs_file" where
  "create_job e jid prompt' jt uid f =
     (let jobs_data = load_jobs f
      in save_jobs (wr e) (new_job (now e) jid prompt' jt uid # jobs_data) f)"

text \<open>The search loop of \<open>update_job_status\<close>: the index of the first job with the id,
  \<open>None\<close> for the source's \<open>-1\<close>.\<close>

fun job_index :: "string \<Rightarrow> job list \<Rightarrow> nat option" where
  "job_index jid [] = None"
| "job_index jid (j # js) =
     (if job_id j = jid then Some 0 else map_option Suc (job_index jid js))"

text \<open>The assignments of \<open>update_job_status\<close> to the job found, in the source's order:
  the status, the four optional fields (each only when the argument is not \<open>None\<close>), and
  the timestamps.\<close>

definition updated_job ::
  "string \<Rightarrow> JobStatus \<Rightarrow> int option \<Rightarrow> string option \<Rightarrow> string option \<Rightarrow> string option
     \<Rightarrow> job \<Rightarrow> job" where
  "updated_job t status' progress' logo_url' video_url' error_message' j =
     (let j1 = j\<lparr>status := status'\<rparr>;
          j2 = (case progress' of None \<Rightarrow> j1 | Some p \<Rightarrow> j1\<lparr>progress := p\<rparr>);
          j3 = (case logo_url' of None \<Rightarrow> j2 | Some u \<Rightarrow> j2\<lparr>logo_url := Some u\<rparr>);
          j4 = (case video_url' of None \<Rightarrow> j3 | Some u \<Rightarrow> j3\<lparr>video_url := Some u\<rparr>);
          j5 = (case error_message' of None \<Rightarrow> j4 | Some m \<Rightarrow> j4\<lparr>error_message := Some m\<rparr>)
      in if status' = PROCESSING then j5\<lparr>started_at := Some t\<rparr>
         else if status' = COMPLETED \<or> status' = FAILED then
           (let j6 = j5\<lparr>completed_at := Some t\<rparr>
            in if progress' = None then j6\<lparr>progress := 100\<rparr> else j6)
         else j5)"

definition update_job_status ::
  "env \<Rightarrow> string \<Rightarrow> JobStatus \<Rightarrow> int option \<Rightarrow> string option \<Rightarrow> string option
     \<Rightarrow> string option \<Rightarrow> jobs_file \<Rightarrow> bool \<times> jobs_file" where
  "update_job_status e jid status' progress' logo_url' video_url' error_message' f =
     (let jobs_data = load_jobs f
      in case job_index jid jobs_data of
           None \<Rightarrow> (False, f)
         | Some i \<Rightarrow>
             save_jobs (wr e)
               (jobs_data[i := updated_job (now e) status' progress' logo_url' video_url'
                                error_message' (jobs_data ! i)]) f)"

text \<open>\<open>get_job\<close>: the first job of the list with the id.\<close>

definition get_job :: "string \<Rightarrow> jobs_file \<Rightarrow> job option" where
  "get_job jid f = find (\<lambda>j. job_id j = jid) (load_jobs f)"

text \<open>\<open>delete_job\<close>: the list without the jobs of that id is written back, and the
  result of the write is the result of the call.\<close>

definition delete_job :: "write_outcome \<Rightarrow> string \<Rightarrow> jobs_file \<Rightarrow> bool \<times> jobs_file" where
  "delete_job w jid f =
     (let jobs_data = load_jobs f
      in save_jobs w (filter (\<lambda>j. job_id j \<noteq> jid) jobs_data) f)"

section \<open>Notification hub (ConnectionManager in backend/main.py)\<close>

text \<open>
  A WebSocket is known by a number. What has been delivered is a log of
  (socket, message) pairs in the order of delivery; whether \<open>send_text\<close> on a socket
  goes through (\<open>up c\<close>) or raises is an input.
\<close>

type_synonym websocket = nat

record connection_manager =
  active_connections :: "websocket list"

datatype send_error = SendFailed websocket

datatype value_error = ValueError

definition connect :: "websocket \<Rightarrow> connection_manager \<Rightarrow> connection_manager" where
  "connect ws m = m\<lparr>active_connections := active_connections m @ [ws]\<rparr>"

definition disconnect :: "websocket \<Rightarrow> connection_manager \<Rightarrow> value_error + connection_manager" where
  "disconnect ws m =
     (if ws \<in> set (active_connections m)
      then Inr (m\<lparr>active_connections := remove1 ws (active_connections m)\<rparr>)
      else Inl ValueError)"

definition send_text ::
  "(websocket \<Rightarrow> bool) \<Rightarrow> websocket \<Rightarrow> string \<Rightarrow> (websocket \<times> string) list
     \<Rightarrow> send_error option \<times> (websocket \<times> string) list" where
  "send_text up c message wire =
     (if up c then (None, wire @ [(c, message)]) else (Some (SendFailed c), wire))"

text \<open>The \<open>for\<close> loop of \<open>broadcast\<close>: there is no \<open>try\<close> around \<open>send_text\<close>, so
  the first exception ends the loop and leaves \<open>broadcast\<close>.\<close>

fun broadcast_loop ::
  "(websocket \<Rightarrow> bool) \<Rightarrow> string \<Rightarrow> websocket list \<Rightarrow> (websocket \<times> string) list
     \<Rightarrow> send_error option \<times> (websocket \<times> string) list" where
  "broadcast_loop up message [] wire = (None, wire)"
| "broadcast_loop up message (c # cs) wire =
     (case send_text up c message wire of
        (Some err, wire') \<Rightarrow> (Some err, wire')
      | (None, wire') \<Rightarrow> broadcast_loop up message cs wire')"

definition broadcast ::
  "(websocket \<Rightarrow> bool) \<Rightarrow> string \<Rightarrow> connection_manager \<Rightarrow> (websocket \<times> string) list
     \<Rightarrow> send_error option \<times> connection_manager \<times> (websocket \<times> string) list" where
  "broadcast up message m wire =
     (case broadcast_loop up message (active_connections m) wire of
        (r, wire') \<Rightarrow> (r, m, wire'))"

section \<open>Job runner (JobManager in backend/app/services/job\_service.py)\<close>

text \<open>
  The value kept in \<open>active_jobs\<close> for a job. Its \<open>"task"\<close> entry is the coroutine of
  the job, kept in \<open>tasks\<close> below; its \<open>"started_at"\<close> entry (the event loop's time) is
  read by no code and left out.
\<close>

record job_info =
  info_prompt :: string
  info_generate_video :: bool
  info_user_id :: string

text \<open>
  The coroutine \<open>_process_job\<close> of one job, by the place where it is suspended: created
  and not yet run; at the \<open>await\<close> of the logo call; at the \<open>await\<close> of the video call
  (with its local \<open>logo_url\<close>); finished. The arguments are \<open>prompt\<close> and
  \<open>generate_video\<close>.
\<close>

datatype task =
    Created string bool
  | AwaitLogo string bool
  | AwaitVideo string string
  | Done

text \<open>The calls handed to the executor: \<open>generate_logo(prompt)\<close> and
  \<open>generate_ad_video(prompt, logo_path)\<close>.\<close>

datatype backend_call = GenerateLogo string | GenerateAdVideo string "string option"

record system =
  store :: jobs_file
  active_jobs :: "string \<rightharpoonup> job_info"
  tasks :: "string \<rightharpoonup> task"
  backend_calls :: "(string \<times> backend_call) list"

datatype exn = Exception string

text \<open>\<open>start_generation_job\<close>; \<open>hex12\<close> is \<open>uuid.uuid4().hex[:12]\<close>.\<close>

definition start_generation_job ::
  "env \<Rightarrow> string \<Rightarrow> string \<Rightarrow> bool \<Rightarrow> string \<Rightarrow> system \<Rightarrow> (exn + string) \<times> system" where
  "start_generation_job e hex12 prompt' generate_video uid s =
     (let jid = ''job_'' @ hex12;
          jt = (if generate_video then BOTH else LOGO);
          (ok, f') = create_job e jid prompt' jt uid (store s)
      in if \<not> ok then (Inl (Exception ''Failed to create job''), s\<lparr>store := f'\<rparr>)
         else (Inr jid,
               s\<lparr>store := f',
                 tasks := (tasks s)(jid \<mapsto> Created prompt' generate_video),
                 active_jobs := (active_jobs s)(jid \<mapsto>
                   \<lparr>info_prompt = prompt', info_generate_video = generate_video,
                    info_user_id = uid\<rparr>)\<rparr>))"

text \<open>The \<open>finally\<close> block of \<open>_process_job\<close>, after which the coroutine is over.\<close>

definition finish :: "string \<Rightarrow> system \<Rightarrow> system" where
  "finish jid s =
     s\<lparr>active_jobs := (if active_jobs s jid \<noteq> None then (active_jobs s)(jid := None)
                        else active_jobs s),
       tasks := (tasks s)(jid \<mapsto> Done)\<rparr>"

text \<open>\<open>logo_url.split('/')[-1]\<close>: what follows the last slash.\<close>

definition last_segment :: "string \<Rightarrow> string" where
  "last_segment u = rev (takeWhile (\<lambda>c. c \<noteq> CHR ''/'') (rev u))"

text \<open>
  \<open>_process_job\<close> in the three pieces between its suspensions. \<open>update_job_status\<close>
  never raises and its result is not looked at, so only the file it leaves matters. The
  logger is taken not to raise, so the outer \<open>except Exception\<close> is never entered.

  First piece: from the start to the \<open>await\<close> of the logo call.
\<close>

definition process_job_begin ::
  "env \<Rightarrow> env \<Rightarrow> string \<Rightarrow> string \<Rightarrow> bool \<Rightarrow> system \<Rightarrow> system" where
  "process_job_begin e1 e2 jid prompt' generate_video s =
     (let f1 = snd (update_job_status e1 jid PROCESSING (Some 10) None None None (store s));
          f2 = snd (update_job_status e2 jid PROCESSING (Some 30) None None None f1)
      in s\<lparr>store := f2,
           tasks := (tasks s)(jid \<mapsto> AwaitLogo prompt' generate_video),
           backend_calls := backend_calls s @ [(jid, GenerateLogo prompt')]\<rparr>)"

text \<open>Second piece: from the result of the logo call (\<open>Inl cause\<close> when it raised, with
  \<open>cause = str(e)\<close>; \<open>Inr\<close> the url otherwise) to the \<open>await\<close> of the video call or to
  the end.\<close>

definition process_job_logo ::
  "env \<Rightarrow> env \<Rightarrow> string \<Rightarrow> string \<Rightarrow> bool \<Rightarrow> string + string \<Rightarrow> system \<Rightarrow> system" where
  "process_job_logo e1 e2 jid prompt' generate_video res s =
     (case res of
        Inl cause \<Rightarrow>
          finish jid
            (s\<lparr>store := snd (update_job_status e1 jid FAILED None None None
                               (Some (''Logo generation failed: '' @ cause)) (store s))\<rparr>)
      | Inr logo \<Rightarrow>
          (let f1 = snd (update_job_status e1 jid PROCESSING (Some 60) (Some logo) None None
                           (store s))
           in if generate_video then
                (let f2 = snd (update_job_status e2 jid PROCESSING (Some 70) None None None f1);
                     logo_path = (if logo \<noteq> [] then Some (''output/'' @ last_segment logo)
                                  else None)
                 in s\<lparr>store := f2,
                      tasks := (tasks s)(jid \<mapsto> AwaitVideo prompt' logo),
                      backend_calls :=
                        backend_calls s @ [(jid, GenerateAdVideo prompt' logo_path)]\<rparr>)
              else
                finish jid
                  (s\<lparr>store := snd (update_job_status e2 jid COMPLETED (Some 100) (Some logo)
                                     None None f1)\<rparr>)))"

text \<open>Third piece: from the result of the video call to the end. When the call raised,
  \<open>video_url\<close> is \<open>None\<close> at the last update.\<close>

definition process_job_video ::
  "env \<Rightarrow> env \<Rightarrow> string \<Rightarrow> string \<Rightarrow> string + string \<Rightarrow> system \<Rightarrow> system" where
  "process_job_video e1 e2 jid logo res s =
     (case res of
        Inr video \<Rightarrow>
          (let f1 = snd (update_job_status e1 jid PROCESSING (Some 90) (Some logo) (Some video)
                           None (store s));
               f2 = snd (update_job_status e2 jid COMPLETED (Some 100) (Some logo) (Some video)
                           None f1)
           in finish jid (s\<lparr>store := f2\<rparr>))
      | Inl cause \<Rightarrow>
          finish jid
            (s\<lparr>store := snd (update_job_status e1 jid COMPLETED (Some 100) (Some logo) None
                               None (store s))\<rparr>))"

text \<open>
  \<open>cancel_job\<close>. \<open>task.cancel()\<close> makes the next resumption of the coroutine raise
  \<open>CancelledError\<close>, which is not an \<open>Exception\<close> (Python 3.8 and later): neither
  \<open>except\<close> clause of \<open>_process_job\<close> runs, the \<open>finally\<close> block finds the id already
  removed, and the coroutine ends with no further update. The task is therefore over as
  soon as it is cancelled.
\<close>

definition cancel_job :: "env \<Rightarrow> string \<Rightarrow> system \<Rightarrow> bool \<times> system" where
  "cancel_job e jid s =
     (if active_jobs s jid \<noteq> None then
        (True,
         s\<lparr>tasks := (tasks s)(jid := map_option (\<lambda>t. Done) (tasks s jid)),
           active_jobs := (active_jobs s)(jid := None),
           store := snd (update_job_status e jid FAILED None None None
                          (Some ''Job cancelled by user'') (store s))\<rparr>)
      else (False, s))"

subsection \<open>The runs of the system\<close>

text \<open>
  What can happen next in the event loop: a request starts a job; a created task runs
  its first piece; the executor hands the result of a backend call to the task that
  awaits it; a request cancels a job. Every event carries the environment of the storage
  calls it makes. A start event is taken only with an id that no job of the file and no
  task has: \<open>uuid4\<close> is assumed to give a fresh id.
\<close>

datatype event =
    Start env string string bool string
  | Run env env string
  | LogoResult env env string "string + string"
  | VideoResult env env string "string + string"
  | Cancel env string

fun step :: "event \<Rightarrow> system \<Rightarrow> system option" where
  "step (Start e hex12 prompt' generate_video uid) s =
     (if get_job (''job_'' @ hex12) (store s) = None \<and> tasks s (''job_'' @ hex12) = None
      then Some (snd (start_generation_job e hex12 prompt' generate_video uid s))
      else None)"
| "step (Run e1 e2 jid) s =
     (case tasks s jid of
        Some (Created prompt' generate_video) \<Rightarrow>
          Some (process_job_begin e1 e2 jid prompt' generate_video s)
      | _ \<Rightarrow> None)"
| "step (LogoResult e1 e2 jid res) s =
     (case tasks s jid of
        Some (AwaitLogo prompt' generate_video) \<Rightarrow>
          Some (process_job_logo e1 e2 jid prompt' generate_video res s)
      | _ \<Rightarrow> None)"
| "step (VideoResult e1 e2 jid res) s =
     (case tasks s jid of
        Some (AwaitVideo prompt' logo) \<Rightarrow> Some (process_job_video e1 e2 jid logo res s)
      | _ \<Rightarrow> None)"
| "step (Cancel e jid) s = Some (snd (cancel_job e jid s))"

fun run :: "event list \<Rightarrow> system \<Rightarrow> system option" where
  "run [] s = Some s"
| "run (ev # evs) s = (case step ev s of None \<Rightarrow> None | Some s' \<Rightarrow> run evs s')"

text \<open>The system right after the process has started: the file as the last process left
  it, no job active, no task.\<close>

definition startup :: "jobs_file \<Rightarrow> system" where
  "startup f = \<lparr>store = f, active_jobs = Map.empty, tasks = Map.empty, backend_calls = []\<rparr>"

text \<open>The order of the states: \<open>forward a b\<close> when \<open>b\<close> is \<open>a\<close> or lies further along
  Pending, Processing, \{Completed, Failed\}.\<close>

fun rank :: "JobStatus \<Rightarrow> nat" where
  "rank PENDING = 0"
| "rank PROCESSING = 1"
| "rank COMPLETED = 2"
| "rank FAILED = 2"

definition forward :: "JobStatus \<Rightarrow> JobStatus \<Rightarrow> bool" where
  "forward a b = (a = b \<or> rank a < rank b)"

definition terminal :: "JobStatus \<Rightarrow> bool" where
  "terminal a = (a = COMPLETED \<or> a = FAILED)"

subsection \<open>The invariant of the runs\<close>

text \<open>The video calls handed to the executor for one job.\<close>

fun is_video_call :: "backend_call \<Rightarrow> bool" where
  "is_video_call (GenerateAdVideo p lp) = True"
| "is_video_call (GenerateLogo p) = False"

definition video_calls :: "string \<Rightarrow> system \<Rightarrow> backend_call list" where
  "video_calls jid s = filter is_video_call (map snd (filter (\<lambda>c. fst c = jid) (backend_calls s)))"

text \<open>
  What the record of a job (if the file has one) looks like while its task is at a given
  place: as long as the task is not over the status is not terminal and no video is
  stored, and before the logo call has returned no logo is stored either.
\<close>

fun task_ok :: "task \<Rightarrow> job option \<Rightarrow> bool" where
  "task_ok t None = True"
| "task_ok Done (Some r) = True"
| "task_ok (Created p g) (Some r) = (\<not> terminal (status r) \<and> logo_url r = None \<and> video_url r = None)"
| "task_ok (AwaitLogo p g) (Some r) = (\<not> terminal (status r) \<and> logo_url r = None \<and> video_url r = None)"
| "task_ok (AwaitVideo p l) (Some r) = (\<not> terminal (status r) \<and> video_url r = None)"

text \<open>The places of a task before its video call.\<close>

fun before_video :: "task option \<Rightarrow> bool" where
  "before_video None = True"
| "before_video (Some (Created p g)) = True"
| "before_video (Some (AwaitLogo p g)) = True"
| "before_video (Some (AwaitVideo p l)) = False"
| "before_video (Some Done) = False"

text \<open>
  The invariant: the ids of \<open>active_jobs\<close> are those of the tasks that are not over;
  the record of every task is as \<open>task_ok\<close> says; no video call has been made for a
  job whose task is before its video call.
\<close>

definition runner_inv :: "system \<Rightarrow> bool" where
  "runner_inv s =
     ((\<forall>jid. (active_jobs s jid \<noteq> None) = (\<exists>t. tasks s jid = Some t \<and> t \<noteq> Done))
    \<and> (\<forall>jid t. tasks s jid = Some t \<longrightarrow> task_ok t (get_job jid (store s)))
    \<and> (\<forall>jid. before_video (tasks s jid) \<longrightarrow> video_calls jid s = []))"

section \<open>Properties of the job storage\<close>

subsection \<open>Auxiliary facts on the search loop and the update\<close>

lemma updated_job_id [simp]: "job_id (updated_job t st p l v m j) = job_id j"
  by (simp add: updated_job_def Let_def split: option.splits)

lemma job_index_Some:
  "job_index jid js = Some i \<Longrightarrow> i < length js \<and> job_id (js ! i) = jid \<and> find (\<lambda>j. job_id j = jid) js = Some (js ! i)"
  by (induction js arbitrary: i) (auto split: if_splits)

lemma find_update_same:
  "job_index jid js = Some i \<Longrightarrow> job_id u = jid \<Longrightarrow> find (\<lambda>j. job_id j = jid) (js[i := u]) = Some u"
  by (induction js arbitrary: i) (auto split: if_splits)

lemma find_update_other:
  "job_index jid js = Some i \<Longrightarrow> job_id u = jid \<Longrightarrow> k \<noteq> jid \<Longrightarrow>
   find (\<lambda>j. job_id j = k) (js[i := u]) = find (\<lambda>j. job_id j = k) js"
  by (induction js arbitrary: i) (auto split: if_splits)

lemma find_job_index:
  "find (\<lambda>j. job_id j = jid) js = (case job_index jid js of None \<Rightarrow> None | Some i \<Rightarrow> Some (js ! i))"
  by (induction js) (auto split: option.splits)

lemma get_job_update:
  "get_job k (snd (update_job_status e jid st p l v m f)) =
     (case get_job jid f of
        None \<Rightarrow> get_job k f
      | Some r \<Rightarrow>
          (case wr e of
             Written \<Rightarrow> (if k = jid then Some (updated_job (now e) st p l v m r) else get_job k f)
           | OpenFailed \<Rightarrow> get_job k f
           | DumpFailed \<Rightarrow> None))"
proof (cases "job_index jid (load_jobs f)")
  case None
  then have "get_job jid f = None" by (simp add: get_job_def find_job_index)
  with None show ?thesis
    by (simp add: update_job_status_def Let_def)
next
  case (Some i)
  note js = job_index_Some [OF Some]
  from js have g: "get_job jid f = Some (load_jobs f ! i)" by (simp add: get_job_def)
  show ?thesis
  proof (cases "wr e")
    case Written
    then show ?thesis using Some js g
      by (simp add: update_job_status_def Let_def get_job_def find_update_same find_update_other)
  next
    case OpenFailed
    then show ?thesis using Some g
      by (simp add: update_job_status_def Let_def)
  next
    case DumpFailed
    then show ?thesis using Some g
      by (simp add: update_job_status_def Let_def get_job_def)
  qed
qed

lemma fst_update:
  "fst (update_job_status e jid st p l v m f) = (get_job jid f \<noteq> None \<and> wr e = Written)"
  by (cases "job_index jid (load_jobs f)"; cases "wr e")
     (simp_all add: update_job_status_def Let_def get_job_def find_job_index)

lemma update_job_status_found:
  "job_index jid (load_jobs f) = Some i \<Longrightarrow>
   update_job_status e jid st p l v m f =
     save_jobs (wr e) ((load_jobs f)[i := updated_job (now e) st p l v m (load_jobs f ! i)]) f"
  by (simp add: update_job_status_def Let_def)

lemma update_job_status_missing:
  "job_index jid (load_jobs f) = None \<Longrightarrow> update_job_status e jid st p l v m f = (False, f)"
  by (simp add: update_job_status_def Let_def)

lemma updated_job_fields:
  "updated_job t st p l v m r =
     r\<lparr>status := st,
       progress := (case p of Some x \<Rightarrow> x
                    | None \<Rightarrow> if st = COMPLETED \<or> st = FAILED then 100 else progress r),
       logo_url := (case l of None \<Rightarrow> logo_url r | Some u \<Rightarrow> Some u),
       video_url := (case v of None \<Rightarrow> video_url r | Some u \<Rightarrow> Some u),
       error_message := (case m of None \<Rightarrow> error_message r | Some x \<Rightarrow> Some x),
       started_at := (if st = PROCESSING then Some t else started_at r),
       completed_at := (if st = COMPLETED \<or> st = FAILED then Some t else completed_at r)\<rparr>"
  by (cases st; cases p; cases l; cases v; cases m) (simp_all add: updated_job_def)

subsection \<open>Creation and deletion\<close>

text \<open>
  C10. \<open>create_job\<close> does not enforce unique ids: when the id is already in the store
  and the write goes through, the call succeeds, the new record is put in front of the
  old ones (the number of records with that id grows by one, the earlier record stays),
  and \<open>get_job\<close> of the id returns the record just created.
\<close>

theorem create_job_duplicate_id:
  assumes "get_job jid f = Some old" and "wr e = Written"
  shows "create_job e jid p jt u f = (True, Content (new_job (now e) jid p jt u # load_jobs f))
       \<and> get_job jid (snd (create_job e jid p jt u f)) = Some (new_job (now e) jid p jt u)
       \<and> length (filter (\<lambda>j. job_id j = jid) (load_jobs (snd (create_job e jid p jt u f))))
           = Suc (length (filter (\<lambda>j. job_id j = jid) (load_jobs f)))
       \<and> old \<in> set (load_jobs (snd (create_job e jid p jt u f)))"
proof -
  have c: "create_job e jid p jt u f = (True, Content (new_job (now e) jid p jt u # load_jobs f))"
    using assms(2) by (simp add: create_job_def)
  have i: "job_id (new_job (now e) jid p jt u) = jid"
    by (simp add: new_job_def)
  from assms(1) have "old \<in> set (load_jobs f)"
    by (auto simp: get_job_def find_Some_iff)
  with c i show ?thesis
    by (simp add: get_job_def)
qed

text \<open>C10 at a concrete store: a second \<open>create_job\<close> for \<open>job_1\<close>.\<close>

theorem create_job_duplicate_id_witness:
  "get_job ''job_1'' (Content [new_job ''t0'' ''job_1'' ''tea'' LOGO ''ann''])
     = Some (new_job ''t0'' ''job_1'' ''tea'' LOGO ''ann'')
   \<and> create_job \<lparr>now = ''t1'', wr = Written\<rparr> ''job_1'' ''bread'' BOTH ''bob''
        (Content [new_job ''t0'' ''job_1'' ''tea'' LOGO ''ann''])
     = (True, Content [new_job ''t1'' ''job_1'' ''bread'' BOTH ''bob'',
                       new_job ''t0'' ''job_1'' ''tea'' LOGO ''ann''])"
proof -
  have h: "get_job ''job_1'' (Content [new_job ''t0'' ''job_1'' ''tea'' LOGO ''ann''])
             = Some (new_job ''t0'' ''job_1'' ''tea'' LOGO ''ann'')"
    by (simp add: get_job_def new_job_def)
  have w: "wr \<lparr>now = ''t1'', wr = Written\<rparr> = Written" by simp
  show ?thesis
    using h create_job_duplicate_id [OF h w, of "''bread''" BOTH "''bob''"] by simp
qed

text \<open>
  C6 as stated fails: \<open>delete_job\<close> returns what \<open>save_jobs\<close> returns, so for an id
  that is not in the store it returns \<open>True\<close> once the list has been written back.
\<close>

theorem delete_job_unknown_id_returns_true:
  "get_job ''job_9'' (Content [new_job ''t0'' ''job_1'' ''tea'' LOGO ''ann'']) = None
   \<and> fst (delete_job Written ''job_9'' (Content [new_job ''t0'' ''job_1'' ''tea'' LOGO ''ann'']))
       \<noteq> False"
  by (simp add: get_job_def delete_job_def new_job_def)

text \<open>
  C6, amended. For an id that is not in the store, \<open>delete_job\<close> returns \<open>True\<close>
  exactly when the write goes through, and unless the write breaks off after the file
  has been truncated, the job list read back afterwards is the list as it was.
\<close>

theorem delete_job_unknown_id:
  assumes "get_job jid f = None"
  shows "fst (delete_job w jid f) = (w = Written)
       \<and> (w \<noteq> DumpFailed \<longrightarrow> load_jobs (snd (delete_job w jid f)) = load_jobs f)"
proof -
  from assms have "\<forall>j \<in> set (load_jobs f). job_id j \<noteq> jid"
    by (simp add: get_job_def find_None_iff)
  then have "filter (\<lambda>j. job_id j \<noteq> jid) (load_jobs f) = load_jobs f"
    by (simp add: filter_id_conv)
  then show ?thesis
    by (cases w) (simp_all add: delete_job_def)
qed

text \<open>C6, amended, at a concrete store that has no \<open>job_9\<close>.\<close>

theorem delete_job_unknown_id_witness:
  "get_job ''job_9'' (Content [new_job ''t0'' ''job_1'' ''tea'' LOGO ''ann'']) = None
   \<and> fst (delete_job Written ''job_9'' (Content [new_job ''t0'' ''job_1'' ''tea'' LOGO ''ann'']))
   \<and> load_jobs (snd (delete_job Written ''job_9''
                       (Content [new_job ''t0'' ''job_1'' ''tea'' LOGO ''ann''])))
       = [new_job ''t0'' ''job_1'' ''tea'' LOGO ''ann'']"
proof -
  have h: "get_job ''job_9'' (Content [new_job ''t0'' ''job_1'' ''tea'' LOGO ''ann'']) = None"
    by (simp add: get_job_def new_job_def)
  show ?thesis
    using h delete_job_unknown_id [OF h, of Written] by simp
qed

subsection \<open>Updates\<close>

text \<open>
  C9 as stated fails for \<open>progress\<close>: an update to Completed (or Failed) that gives no
  progress does not leave the stored progress as it was, it sets it to 100. Here the
  stored progress is 60.
\<close>

theorem update_job_status_completed_sets_progress:
  "progress ((new_job ''t0'' ''job_1'' ''tea'' LOGO ''ann'')\<lparr>status := PROCESSING, progress := 60\<rparr>) = 60
   \<and> map_option progress
        (get_job ''job_1''
          (snd (update_job_status \<lparr>now = ''t1'', wr = Written\<rparr> ''job_1'' COMPLETED None None None None
                 (Content [(new_job ''t0'' ''job_1'' ''tea'' LOGO ''ann'')
                             \<lparr>status := PROCESSING, progress := 60\<rparr>]))))
       = Some 100"
  by (simp add: update_job_status_def get_job_def new_job_def updated_job_def)

text \<open>
  C9, amended. When \<open>update_job_status\<close> returns \<open>True\<close>, the job it has changed is the
  first one with the id; every other entry of the list is as before; of the changed job,
  \<open>logo_url\<close>, \<open>video_url\<close> and \<open>error_message\<close> are as before when their argument is
  absent, and with an absent \<open>progress\<close> argument the stored progress is as before for an
  update to Pending or Processing and is 100 for an update to Completed or Failed. When
  it returns \<open>False\<close>, the file is as before, or the write broke off and the file no
  longer loads.
\<close>

theorem update_job_status_frame:
  assumes "update_job_status e jid st p l v m f = (ok, f')"
  shows "(ok \<longrightarrow>
           (\<exists>i. job_index jid (load_jobs f) = Some i
              \<and> length (load_jobs f') = length (load_jobs f)
              \<and> (\<forall>k < length (load_jobs f). k \<noteq> i \<longrightarrow> load_jobs f' ! k = load_jobs f ! k)
              \<and> (l = None \<longrightarrow> logo_url (load_jobs f' ! i) = logo_url (load_jobs f ! i))
              \<and> (v = None \<longrightarrow> video_url (load_jobs f' ! i) = video_url (load_jobs f ! i))
              \<and> (m = None \<longrightarrow> error_message (load_jobs f' ! i) = error_message (load_jobs f ! i))
              \<and> (p = None \<longrightarrow> progress (load_jobs f' ! i) =
                    (if st = COMPLETED \<or> st = FAILED then 100 else progress (load_jobs f ! i)))))
       \<and> (\<not> ok \<longrightarrow> f' = f \<or> (wr e = DumpFailed \<and> f' = Unreadable))"
proof (cases "job_index jid (load_jobs f)")
  case None
  with assms show ?thesis
    by (simp add: update_job_status_missing)
next
  case (Some i)
  from job_index_Some [OF Some] have len: "i < length (load_jobs f)" by simp
  from assms Some have s: "save_jobs (wr e)
      ((load_jobs f)[i := updated_job (now e) st p l v m (load_jobs f ! i)]) f = (ok, f')"
    by (simp add: update_job_status_found)
  show ?thesis
  proof (cases "wr e")
    case Written
    with s have "ok" and f': "load_jobs f' = (load_jobs f)[i := updated_job (now e) st p l v m (load_jobs f ! i)]"
      by auto
    then show ?thesis using Some len
      by (simp add: updated_job_fields)
  next
    case OpenFailed
    with s show ?thesis by auto
  next
    case DumpFailed
    with s show ?thesis by auto
  qed
qed

text \<open>C9, amended, at a store of two jobs, the second of which is updated.\<close>

theorem update_job_status_frame_witness:
  "update_job_status \<lparr>now = ''t2'', wr = Written\<rparr> ''job_1'' PROCESSING (Some 30) None None None
       (Content [new_job ''t1'' ''job_2'' ''bread'' BOTH ''bob'',
                 new_job ''t0'' ''job_1'' ''tea'' LOGO ''ann''])
     = (True, Content [new_job ''t1'' ''job_2'' ''bread'' BOTH ''bob'',
                       (new_job ''t0'' ''job_1'' ''tea'' LOGO ''ann'')
                          \<lparr>status := PROCESSING, started_at := Some ''t2'', progress := 30\<rparr>])
   \<and> job_index ''job_1'' [new_job ''t1'' ''job_2'' ''bread'' BOTH ''bob'',
                          new_job ''t0'' ''job_1'' ''tea'' LOGO ''ann''] = Some 1"
proof -
  have h: "update_job_status \<lparr>now = ''t2'', wr = Written\<rparr> ''job_1'' PROCESSING (Some 30) None None None
       (Content [new_job ''t1'' ''job_2'' ''bread'' BOTH ''bob'',
                 new_job ''t0'' ''job_1'' ''tea'' LOGO ''ann''])
     = (True, Content [new_job ''t1'' ''job_2'' ''bread'' BOTH ''bob'',
                       (new_job ''t0'' ''job_1'' ''tea'' LOGO ''ann'')
                          \<lparr>status := PROCESSING, started_at := Some ''t2'', progress := 30\<rparr>])"
    by (simp add: update_job_status_def new_job_def updated_job_def)
  show ?thesis
    using h update_job_status_frame [OF h] by (simp add: new_job_def)
qed

text \<open>
  C2 as stated fails: \<open>update_job_status\<close> does not look at \<open>completed_at\<close>. An update
  to Processing of a job that is Completed, with \<open>completed_at\<close> set, changes the record.
\<close>

theorem update_job_status_changes_completed_job:
  "completed_at ((new_job ''t0'' ''job_1'' ''tea'' LOGO ''ann'')
                   \<lparr>status := COMPLETED, completed_at := Some ''t3'', progress := 100\<rparr>) = Some ''t3''
   \<and> get_job ''job_1''
        (snd (update_job_status \<lparr>now = ''t4'', wr = Written\<rparr> ''job_1'' PROCESSING (Some 5) None None None
               (Content [(new_job ''t0'' ''job_1'' ''tea'' LOGO ''ann'')
                           \<lparr>status := COMPLETED, completed_at := Some ''t3'', progress := 100\<rparr>])))
     \<noteq> get_job ''job_1''
          (Content [(new_job ''t0'' ''job_1'' ''tea'' LOGO ''ann'')
                      \<lparr>status := COMPLETED, completed_at := Some ''t3'', progress := 100\<rparr>])"
  by (simp add: update_job_status_def get_job_def new_job_def updated_job_def)

text \<open>
  C2, amended. On a job whose \<open>completed_at\<close> is set, \<open>update_job_status\<close> (when its
  write goes through) succeeds and is applied as on any other job: the status becomes the
  given one, every optional argument that is given overwrites its field, \<open>started_at\<close>
  is stamped for an update to Processing, and for an update to Completed or Failed
  \<open>completed_at\<close> is stamped again and an absent progress becomes 100. What keeps its
  value is \<open>job_id\<close>, \<open>prompt\<close>, \<open>job_type\<close>, \<open>created_at\<close>, \<open>user_id\<close>, and the
  fields named above when they are not written.
\<close>

theorem update_job_status_after_completion:
  assumes "get_job jid f = Some r" and "completed_at r = Some c" and "wr e = Written"
  shows "fst (update_job_status e jid st p l v m f)
       \<and> get_job jid (snd (update_job_status e jid st p l v m f)) =
           Some (r\<lparr>status := st,
                   progress := (case p of Some x \<Rightarrow> x
                                | None \<Rightarrow> if st = COMPLETED \<or> st = FAILED then 100 else progress r),
                   logo_url := (case l of None \<Rightarrow> logo_url r | Some u \<Rightarrow> Some u),
                   video_url := (case v of None \<Rightarrow> video_url r | Some u \<Rightarrow> Some u),
                   error_message := (case m of None \<Rightarrow> error_message r | Some x \<Rightarrow> Some x),
                   started_at := (if st = PROCESSING then Some (now e) else started_at r),
                   completed_at := (if st = COMPLETED \<or> st = FAILED then Some (now e) else Some c)\<rparr>)"
  using assms by (simp add: fst_update get_job_update updated_job_fields)

text \<open>C2, amended, at the store of the counterexample.\<close>

theorem update_job_status_after_completion_witness:
  "get_job ''job_1''
     (Content [(new_job ''t0'' ''job_1'' ''tea'' LOGO ''ann'')
                 \<lparr>status := COMPLETED, completed_at := Some ''t3'', progress := 100\<rparr>])
     = Some ((new_job ''t0'' ''job_1'' ''tea'' LOGO ''ann'')
               \<lparr>status := COMPLETED, completed_at := Some ''t3'', progress := 100\<rparr>)
   \<and> map_option status
        (get_job ''job_1''
          (snd (update_job_status \<lparr>now = ''t4'', wr = Written\<rparr> ''job_1'' PROCESSING (Some 5) None None None
                 (Content [(new_job ''t0'' ''job_1'' ''tea'' LOGO ''ann'')
                             \<lparr>status := COMPLETED, completed_at := Some ''t3'', progress := 100\<rparr>]))))
       = Some PROCESSING"
proof -
  have h: "get_job ''job_1''
     (Content [(new_job ''t0'' ''job_1'' ''tea'' LOGO ''ann'')
                 \<lparr>status := COMPLETED, completed_at := Some ''t3'', progress := 100\<rparr>])
     = Some ((new_job ''t0'' ''job_1'' ''tea'' LOGO ''ann'')
               \<lparr>status := COMPLETED, completed_at := Some ''t3'', progress := 100\<rparr>)"
    by (simp add: get_job_def new_job_def)
  have c: "completed_at ((new_job ''t0'' ''job_1'' ''tea'' LOGO ''ann'')
               \<lparr>status := COMPLETED, completed_at := Some ''t3'', progress := 100\<rparr>) = Some ''t3''"
    by simp
  have w: "wr \<lparr>now = ''t4'', wr = Written\<rparr> = Written" by simp
  show ?thesis
    using h update_job_status_after_completion [OF h c w, of PROCESSING "Some 5" None None None]
    by simp
qed

text \<open>
  C5 on the code: every update to Processing assigns \<open>started_at\<close>, also when it is
  set already. A job started at \<open>t1\<close> that gets its next progress update at \<open>t2\<close> has
  \<open>started_at = t2\<close> afterwards.
\<close>

theorem update_job_status_restamps_started_at:
  "started_at ((new_job ''t0'' ''job_1'' ''tea'' LOGO ''ann'')
                 \<lparr>status := PROCESSING, started_at := Some ''t1'', progress := 10\<rparr>) = Some ''t1''
   \<and> map_option started_at
        (get_job ''job_1''
          (snd (update_job_status \<lparr>now = ''t2'', wr = Written\<rparr> ''job_1'' PROCESSING (Some 30) None None None
                 (Content [(new_job ''t0'' ''job_1'' ''tea'' LOGO ''ann'')
                             \<lparr>status := PROCESSING, started_at := Some ''t1'', progress := 10\<rparr>]))))
       = Some (Some ''t2'')"
  by (simp add: update_job_status_def get_job_def new_job_def updated_job_def)

section \<open>Properties of the notification hub\<close>

lemma broadcast_loop_eq:
  "broadcast_loop up message cs wire =
     ((case find (\<lambda>c. \<not> up c) cs of None \<Rightarrow> None | Some c \<Rightarrow> Some (SendFailed c)),
      wire @ map (\<lambda>c. (c, message)) (takeWhile up cs))"
  by (induction cs arbitrary: wire) (simp_all add: send_text_def)

text \<open>
  C3 as stated fails: with the observers 1, 2, 3 registered and the socket of 2 closed,
  \<open>broadcast\<close> raises at 2, observer 3 gets nothing, and 2 is still registered.
\<close>

theorem broadcast_aborts_at_failed_observer:
  "broadcast (\<lambda>c. c \<noteq> 2) ''job_started'' \<lparr>active_connections = [1, 2, 3]\<rparr> []
     = (Some (SendFailed 2), \<lparr>active_connections = [1, 2, 3]\<rparr>, [(1, ''job_started'')])"
  by (simp add: broadcast_def send_text_def)

text \<open>
  C3, amended. \<open>broadcast\<close> serves the registered observers in the order of the list up
  to the first one whose delivery fails; that failure leaves \<open>broadcast\<close> as an exception,
  the observers after it are not served, and the set of observers is as it was. When no
  delivery fails, every observer is served.
\<close>

theorem broadcast_until_first_failure:
  "broadcast up message m wire =
     ((case find (\<lambda>c. \<not> up c) (active_connections m) of
         None \<Rightarrow> None | Some c \<Rightarrow> Some (SendFailed c)),
      m,
      wire @ map (\<lambda>c. (c, message)) (takeWhile up (active_connections m)))"
  by (simp add: broadcast_def broadcast_loop_eq)

section \<open>Properties of the job runner\<close>

subsection \<open>The invariant holds in every run\<close>

lemma runner_invI:
  assumes "\<And>k. (active_jobs s k \<noteq> None) = (\<exists>t. tasks s k = Some t \<and> t \<noteq> Done)"
    and "\<And>k t. tasks s k = Some t \<Longrightarrow> task_ok t (get_job k (store s))"
    and "\<And>k. before_video (tasks s k) \<Longrightarrow> video_calls k s = []"
  shows "runner_inv s"
  using assms by (simp add: runner_inv_def)

lemma inv_active: "runner_inv s \<Longrightarrow> (active_jobs s k \<noteq> None) = (\<exists>t. tasks s k = Some t \<and> t \<noteq> Done)"
  by (simp add: runner_inv_def)

lemma inv_task_ok: "runner_inv s \<Longrightarrow> tasks s k = Some t \<Longrightarrow> task_ok t (get_job k (store s))"
  by (simp add: runner_inv_def)

lemma inv_calls: "runner_inv s \<Longrightarrow> before_video (tasks s k) \<Longrightarrow> video_calls k s = []"
  by (simp add: runner_inv_def)

lemma get_job_create:
  "get_job k (snd (create_job e jid p jt u f)) =
     (case wr e of
        Written \<Rightarrow> (if k = jid then Some (new_job (now e) jid p jt u) else get_job k f)
      | OpenFailed \<Rightarrow> get_job k f
      | DumpFailed \<Rightarrow> None)"
  by (cases "wr e") (simp_all add: create_job_def get_job_def new_job_def)

lemma fst_create: "fst (create_job e jid p jt u f) = (wr e = Written)"
  by (cases "wr e") (simp_all add: create_job_def)

lemma get_job_update_elim:
  assumes "get_job k (snd (update_job_status e jid st p l v m f)) = Some r'"
  obtains r where "get_job k f = Some r" and
    "r' = r \<or> (k = jid \<and> wr e = Written \<and> r' = updated_job (now e) st p l v m r)"
  using assms unfolding get_job_update
  by (auto split: option.splits write_outcome.splits if_splits)

lemma task_ok_update_other:
  "k \<noteq> jid \<Longrightarrow> task_ok t (get_job k f) \<Longrightarrow>
   task_ok t (get_job k (snd (update_job_status e jid st p l v m f)))"
  by (simp add: get_job_update split: option.splits write_outcome.splits)

lemma status_updated [simp]: "status (updated_job t st p l v m r) = st"
  by (simp add: updated_job_fields)

lemma logo_updated [simp]:
  "logo_url (updated_job t st p l v m r) = (case l of None \<Rightarrow> logo_url r | Some u \<Rightarrow> Some u)"
  by (simp add: updated_job_fields)

lemma video_updated [simp]:
  "video_url (updated_job t st p l v m r) = (case v of None \<Rightarrow> video_url r | Some u \<Rightarrow> Some u)"
  by (simp add: updated_job_fields)

lemma task_ok_Created: "task_ok (Created a b) r = task_ok (AwaitLogo a b) r"
  by (cases r) simp_all

lemma task_ok_keep_logo:
  "task_ok (AwaitLogo a b) (get_job jid f) \<Longrightarrow>
   task_ok (AwaitLogo a' b') (get_job jid (snd (update_job_status e jid PROCESSING p None None m f)))"
  by (auto simp: get_job_update terminal_def split: option.splits write_outcome.splits)

lemma task_ok_logo_video:
  "task_ok (AwaitLogo a b) (get_job jid f) \<Longrightarrow>
   task_ok (AwaitVideo q lg) (get_job jid (snd (update_job_status e jid PROCESSING p l None m f)))"
  by (auto simp: get_job_update terminal_def split: option.splits write_outcome.splits)

lemma task_ok_keep_video:
  "task_ok (AwaitVideo q lg) (get_job jid f) \<Longrightarrow>
   task_ok (AwaitVideo q' lg') (get_job jid (snd (update_job_status e jid PROCESSING p l None m f)))"
  by (auto simp: get_job_update terminal_def split: option.splits write_outcome.splits)

lemma task_ok_Done [simp]: "task_ok Done r"
  by (cases r) simp_all

lemma video_calls_append [simp]:
  "video_calls jid (s\<lparr>backend_calls := backend_calls s @ [(k, c)]\<rparr>) =
     video_calls jid s @ (if k = jid \<and> is_video_call c then [c] else [])"
  by (simp add: video_calls_def)

lemma video_calls_store [simp]: "video_calls jid (s\<lparr>store := f\<rparr>) = video_calls jid s"
  by (simp add: video_calls_def)

lemma video_calls_tasks [simp]: "video_calls jid (s\<lparr>tasks := f\<rparr>) = video_calls jid s"
  by (simp add: video_calls_def)

lemma video_calls_active [simp]: "video_calls jid (s\<lparr>active_jobs := f\<rparr>) = video_calls jid s"
  by (simp add: video_calls_def)

lemma video_calls_finish [simp]: "video_calls jid (finish k s) = video_calls jid s"
  by (simp add: video_calls_def finish_def)

lemma runner_inv_startup: "runner_inv (startup f)"
  by (simp add: runner_inv_def startup_def video_calls_def)

lemma inv_start:
  assumes "runner_inv s" and "get_job (''job_'' @ h) (store s) = None" and "tasks s (''job_'' @ h) = None"
  shows "runner_inv (snd (start_generation_job e h p g u s))"
proof (cases "wr e = Written")
  case True
  then show ?thesis using assms
    unfolding runner_inv_def start_generation_job_def Let_def
    by (auto simp: split_def fst_create get_job_create terminal_def new_job_def)
next
  case False
  then show ?thesis using assms
    unfolding runner_inv_def start_generation_job_def Let_def
    by (auto simp: split_def fst_create get_job_create split: write_outcome.splits)
qed

lemma inv_begin:
  assumes "runner_inv s" and "tasks s jid = Some (Created p g)"
  shows "runner_inv (process_job_begin e1 e2 jid p g s)"
proof (rule runner_invI)
  fix k
  show "(active_jobs (process_job_begin e1 e2 jid p g s) k \<noteq> None) =
        (\<exists>t. tasks (process_job_begin e1 e2 jid p g s) k = Some t \<and> t \<noteq> Done)"
    using assms inv_active [OF assms(1), of k] by (auto simp: process_job_begin_def Let_def)
next
  fix k t
  assume t: "tasks (process_job_begin e1 e2 jid p g s) k = Some t"
  show "task_ok t (get_job k (store (process_job_begin e1 e2 jid p g s)))"
  proof (cases "k = jid")
    case True
    from assms have "task_ok (AwaitLogo p g) (get_job jid (store s))"
      by (simp add: inv_task_ok task_ok_Created [symmetric])
    then show ?thesis using True t
      by (auto simp: process_job_begin_def Let_def task_ok_keep_logo)
  next
    case False
    then show ?thesis using assms(1) t
      by (simp add: process_job_begin_def Let_def task_ok_update_other inv_task_ok)
  qed
next
  fix k
  assume "before_video (tasks (process_job_begin e1 e2 jid p g s) k)"
  then show "video_calls k (process_job_begin e1 e2 jid p g s) = []"
    using assms inv_calls [OF assms(1), of k]
    by (auto simp: process_job_begin_def Let_def video_calls_def split: if_splits)
qed

lemma inv_finish_store:
  assumes "runner_inv s" and "tasks s jid = Some t" and "t \<noteq> Done"
    and "\<And>k u. k \<noteq> jid \<Longrightarrow> task_ok u (get_job k (store s)) \<Longrightarrow> task_ok u (get_job k f)"
  shows "runner_inv (finish jid (s\<lparr>store := f\<rparr>))"
proof (rule runner_invI)
  fix k
  show "(active_jobs (finish jid (s\<lparr>store := f\<rparr>)) k \<noteq> None) =
        (\<exists>t. tasks (finish jid (s\<lparr>store := f\<rparr>)) k = Some t \<and> t \<noteq> Done)"
    using assms(2,3) inv_active [OF assms(1), of k] by (auto simp: finish_def)
next
  fix k u
  assume "tasks (finish jid (s\<lparr>store := f\<rparr>)) k = Some u"
  then show "task_ok u (get_job k (store (finish jid (s\<lparr>store := f\<rparr>))))"
    using assms(4) [of k u] inv_task_ok [OF assms(1), of k u]
    by (auto simp: finish_def split: if_splits)
next
  fix k
  assume "before_video (tasks (finish jid (s\<lparr>store := f\<rparr>)) k)"
  then show "video_calls k (finish jid (s\<lparr>store := f\<rparr>)) = []"
    using inv_calls [OF assms(1), of k]
    by (auto simp: finish_def split: if_splits)
qed

lemma inv_logo:
  assumes "runner_inv s" and "tasks s jid = Some (AwaitLogo p g)"
  shows "runner_inv (process_job_logo e1 e2 jid p g res s)"
proof (cases res)
  case (Inl cause)
  then show ?thesis
    using assms by (simp add: process_job_logo_def inv_finish_store task_ok_update_other)
next
  case (Inr logo)
  show ?thesis
  proof (cases g)
    case False
    then show ?thesis
      using assms Inr
      by (simp add: process_job_logo_def Let_def inv_finish_store task_ok_update_other)
  next
    case True
    let ?f1 = "snd (update_job_status e1 jid PROCESSING (Some 60) (Some logo) None None (store s))"
    let ?f2 = "snd (update_job_status e2 jid PROCESSING (Some 70) None None None ?f1)"
    let ?s' = "s\<lparr>store := ?f2,
           tasks := (tasks s)(jid \<mapsto> AwaitVideo p logo),
           backend_calls := backend_calls s @
             [(jid, GenerateAdVideo p (if logo \<noteq> [] then Some (''output/'' @ last_segment logo) else None))]\<rparr>"
    have "runner_inv ?s'"
    proof (rule runner_invI)
      fix k
      show "(active_jobs ?s' k \<noteq> None) = (\<exists>t. tasks ?s' k = Some t \<and> t \<noteq> Done)"
        using assms(2) inv_active [OF assms(1), of k] by auto
    next
      fix k t
      assume t: "tasks ?s' k = Some t"
      show "task_ok t (get_job k (store ?s'))"
      proof (cases "k = jid")
        case True
        from assms have "task_ok (AwaitLogo p g) (get_job jid (store s))"
          by (simp add: inv_task_ok)
        then have "task_ok (AwaitVideo p logo) (get_job jid ?f1)"
          by (rule task_ok_logo_video)
        then have "task_ok (AwaitVideo p logo) (get_job jid ?f2)"
          by (rule task_ok_keep_video)
        then show ?thesis using True t by auto
      next
        case False
        then show ?thesis using assms(1) t
          by (simp add: task_ok_update_other inv_task_ok)
      qed
    next
      fix k
      assume "before_video (tasks ?s' k)"
      then show "video_calls k ?s' = []"
        using inv_calls [OF assms(1), of k] by (auto simp: video_calls_def split: if_splits)
    qed
    then show ?thesis using True Inr
      by (simp add: process_job_logo_def Let_def)
  qed
qed

lemma inv_video:
  assumes "runner_inv s" and "tasks s jid = Some (AwaitVideo p logo)"
  shows "runner_inv (process_job_video e1 e2 jid logo res s)"
  using assms
  by (cases res) (simp_all add: process_job_video_def Let_def inv_finish_store task_ok_update_other)

lemma inv_cancel:
  assumes "runner_inv s"
  shows "runner_inv (snd (cancel_job e jid s))"
proof (cases "active_jobs s jid = None")
  case True
  then show ?thesis using assms by (simp add: cancel_job_def)
next
  case False
  with inv_active [OF assms, of jid] obtain t where t: "tasks s jid = Some t" "t \<noteq> Done"
    by auto
  have "snd (cancel_job e jid s) =
        finish jid (s\<lparr>store := snd (update_job_status e jid FAILED None None None
                                     (Some ''Job cancelled by user'') (store s))\<rparr>)"
    using False t by (simp add: cancel_job_def finish_def)
  then show ?thesis
    using assms t by (simp add: inv_finish_store task_ok_update_other)
qed

lemma inv_step: "runner_inv s \<Longrightarrow> step ev s = Some s' \<Longrightarrow> runner_inv s'"
  by (cases ev)
     (auto simp: inv_start inv_begin inv_logo inv_video inv_cancel
           split: if_splits option.splits task.splits)

lemma inv_run: "runner_inv s \<Longrightarrow> run evs s = Some s' \<Longrightarrow> runner_inv s'"
  by (induction evs arbitrary: s) (auto split: option.splits dest: inv_step)

lemma inv_reachable: "run evs (startup f) = Some s \<Longrightarrow> runner_inv s"
  using inv_run runner_inv_startup by blast

subsection \<open>What one event does to a record\<close>

lemma get_job_update_old:
  assumes "get_job k (snd (update_job_status e jid st p l v m f)) = Some r'"
  shows "\<exists>r. get_job k f = Some r \<and> (r' = r \<or> (k = jid \<and> status r' = st))"
  using assms by (rule get_job_update_elim) auto

lemma get_job_update_other:
  "k \<noteq> jid \<Longrightarrow> get_job k (snd (update_job_status e jid st p l v m f)) = Some r'
     \<Longrightarrow> get_job k f = Some r'"
  by (auto dest: get_job_update_old)

lemma get_job_create_old:
  assumes "get_job k (snd (create_job e jid p jt u f)) = Some r'" and "k \<noteq> jid"
  shows "get_job k f = Some r'"
  using assms by (simp add: get_job_create split: write_outcome.splits)

lemma store_finish [simp]: "store (finish jid s) = store s"
  by (simp add: finish_def)

lemma store_start:
  "store (snd (start_generation_job e h p g u s)) =
     snd (create_job e (''job_'' @ h) p (if g then BOTH else LOGO) u (store s))"
  by (simp add: start_generation_job_def Let_def split_def)

lemma get_job_update2_old:
  assumes "get_job k (snd (update_job_status e2 j st2 p2 l2 v2 m2
                       (snd (update_job_status e1 j st1 p1 l1 v1 m1 f)))) = Some r'"
  shows "\<exists>r. get_job k f = Some r \<and> (r' = r \<or> (k = j \<and> (status r' = st1 \<or> status r' = st2)))"
proof -
  from get_job_update_old [OF assms] obtain r1 where
    r1: "get_job k (snd (update_job_status e1 j st1 p1 l1 v1 m1 f)) = Some r1"
    and c1: "r' = r1 \<or> (k = j \<and> status r' = st2)" by blast
  from get_job_update_old [OF r1] obtain r where
    "get_job k f = Some r" and "r1 = r \<or> (k = j \<and> status r1 = st1)" by blast
  with c1 show ?thesis by auto
qed

lemma step_store:
  assumes "step ev s = Some s'" and "get_job jid (store s') = Some r'"
    and "get_job jid (store s) = Some r"
  shows "r' = r \<or> (status r' \<noteq> PENDING \<and> (\<exists>t. tasks s jid = Some t \<and> t \<noteq> Done
                                              \<or> active_jobs s jid \<noteq> None))"
proof (cases ev)
  case (Start e h p g u)
  with assms(1) have fresh: "get_job (''job_'' @ h) (store s) = None"
    and s': "s' = snd (start_generation_job e h p g u s)"
    by (auto split: if_splits)
  from fresh assms(3) have "jid \<noteq> ''job_'' @ h" by auto
  with assms(2) s' have "get_job jid (store s) = Some r'"
    by (auto simp: store_start dest: get_job_create_old)
  with assms(3) show ?thesis by simp
next
  case (Run e1 e2 j)
  with assms(1) obtain p g where t: "tasks s j = Some (Created p g)"
    and s': "s' = process_job_begin e1 e2 j p g s"
    by (auto split: option.splits task.splits)
  from assms(2) s' have "get_job jid (snd (update_job_status e2 j PROCESSING (Some 30) None None None
      (snd (update_job_status e1 j PROCESSING (Some 10) None None None (store s))))) = Some r'"
    by (simp add: process_job_begin_def Let_def)
  from get_job_update2_old [OF this] assms(3) t show ?thesis by auto
next
  case (LogoResult e1 e2 j res)
  with assms(1) obtain p g where t: "tasks s j = Some (AwaitLogo p g)"
    and s': "s' = process_job_logo e1 e2 j p g res s"
    by (auto split: option.splits task.splits)
  show ?thesis
  proof (cases res)
    case (Inl cause)
    with assms(2) s' have "get_job jid (snd (update_job_status e1 j FAILED None None None
        (Some (''Logo generation failed: '' @ cause)) (store s))) = Some r'"
      by (simp add: process_job_logo_def)
    from get_job_update_old [OF this] assms(3) t show ?thesis by auto
  next
    case (Inr logo)
    show ?thesis
    proof (cases g)
      case True
      with Inr assms(2) s' have "get_job jid (snd (update_job_status e2 j PROCESSING (Some 70) None None None
        (snd (update_job_status e1 j PROCESSING (Some 60) (Some logo) None None (store s))))) = Some r'"
        by (simp add: process_job_logo_def Let_def)
      from get_job_update2_old [OF this] assms(3) t show ?thesis by auto
    next
      case False
      with Inr assms(2) s' have "get_job jid (snd (update_job_status e2 j COMPLETED (Some 100) (Some logo) None None
        (snd (update_job_status e1 j PROCESSING (Some 60) (Some logo) None None (store s))))) = Some r'"
        by (simp add: process_job_logo_def Let_def)
      from get_job_update2_old [OF this] assms(3) t show ?thesis by auto
    qed
  qed
next
  case (VideoResult e1 e2 j res)
  with assms(1) obtain p l where t: "tasks s j = Some (AwaitVideo p l)"
    and s': "s' = process_job_video e1 e2 j l res s"
    by (auto split: option.splits task.splits)
  show ?thesis
  proof (cases res)
    case (Inl cause)
    with assms(2) s' have "get_job jid (snd (update_job_status e1 j COMPLETED (Some 100) (Some l) None
        None (store s))) = Some r'"
      by (simp add: process_job_video_def)
    from get_job_update_old [OF this] assms(3) t show ?thesis by auto
  next
    case (Inr video)
    with assms(2) s' have "get_job jid (snd (update_job_status e2 j COMPLETED (Some 100) (Some l) (Some video) None
        (snd (update_job_status e1 j PROCESSING (Some 90) (Some l) (Some video) None (store s))))) = Some r'"
      by (simp add: process_job_video_def Let_def)
    from get_job_update2_old [OF this] assms(3) t show ?thesis by auto
  qed
next
  case (Cancel e j)
  with assms(1) have s': "s' = snd (cancel_job e j s)" by simp
  show ?thesis
  proof (cases "active_jobs s j = None")
    case True
    with s' assms(2,3) show ?thesis by (simp add: cancel_job_def)
  next
    case False
    with assms(2) s' have "get_job jid (snd (update_job_status e j FAILED None None None
        (Some ''Job cancelled by user'') (store s))) = Some r'"
      by (simp add: cancel_job_def)
    from get_job_update_old [OF this] assms(3) False show ?thesis by auto
  qed
qed

lemma step_record:
  assumes "runner_inv s" and "step ev s = Some s'"
    and "get_job jid (store s) = Some r" and "get_job jid (store s') = Some r'"
  shows "r' = r \<or> (\<not> terminal (status r) \<and> status r' \<noteq> PENDING)"
proof -
  from step_store [OF assms(2,4,3)]
  consider "r' = r" | t where "status r' \<noteq> PENDING" "tasks s jid = Some t" "t \<noteq> Done"
    using inv_active [OF assms(1), of jid] by auto
  then show ?thesis
  proof cases
    case 1
    then show ?thesis by simp
  next
    case 2
    with inv_task_ok [OF assms(1) 2(2)] assms(3) show ?thesis
      by (cases t) simp_all
  qed
qed

subsection \<open>The status of a job along a run\<close>

text \<open>
  C1. In every state \<open>s\<close> that a run of the system reaches from its start, whatever event
  \<open>ev\<close> comes next (a start, a piece of the pipeline of any job, a cancel): for every
  job id the record that the store returns for it after the event, compared with the one
  before, has the same status or one further along Pending, Processing,
  \{Completed, Failed\}; and when the status before was Completed or Failed, the status
  after is the same. (A record can only leave the store when a write breaks off.)
\<close>

theorem status_only_moves_forward:
  assumes "run evs (startup f0) = Some s" and "step ev s = Some s'"
    and "get_job jid (store s) = Some r" and "get_job jid (store s') = Some r'"
  shows "forward (status r) (status r') \<and> (terminal (status r) \<longrightarrow> status r' = status r)"
proof -
  have "runner_inv s" using assms(1) by (rule inv_reachable)
  from step_record [OF this assms(2-4)]
  have "r' = r \<or> (\<not> terminal (status r) \<and> status r' \<noteq> PENDING)" .
  then show ?thesis
    by (cases "status r"; cases "status r'") (auto simp: forward_def terminal_def)
qed

text \<open>C1 on a run: a job is started and begun, and the logo result completes it.\<close>

theorem status_only_moves_forward_witness:
  "\<exists>s s' r r'.
     run [Start \<lparr>now = ''t0'', wr = Written\<rparr> ''abc'' ''tea'' False ''ann'',
          Run \<lparr>now = ''t1'', wr = Written\<rparr> \<lparr>now = ''t2'', wr = Written\<rparr> ''job_abc'']
         (startup Missing) = Some s
   \<and> step (LogoResult \<lparr>now = ''t3'', wr = Written\<rparr> \<lparr>now = ''t4'', wr = Written\<rparr> ''job_abc''
             (Inr ''/output/logo_1.png'')) s = Some s'
   \<and> get_job ''job_abc'' (store s) = Some r \<and> get_job ''job_abc'' (store s') = Some r'
   \<and> status r = PROCESSING \<and> status r' = COMPLETED
   \<and> forward (status r) (status r') \<and> (terminal (status r) \<longrightarrow> status r' = status r)"
proof -
  let ?evs = "[Start \<lparr>now = ''t0'', wr = Written\<rparr> ''abc'' ''tea'' False ''ann'',
               Run \<lparr>now = ''t1'', wr = Written\<rparr> \<lparr>now = ''t2'', wr = Written\<rparr> ''job_abc'']"
  let ?ev = "LogoResult \<lparr>now = ''t3'', wr = Written\<rparr> \<lparr>now = ''t4'', wr = Written\<rparr> ''job_abc''
               (Inr ''/output/logo_1.png'')"
  obtain s where s: "run ?evs (startup Missing) = Some s"
    and t: "tasks s ''job_abc'' = Some (AwaitLogo ''tea'' False)"
    and r: "map_option status (get_job ''job_abc'' (store s)) = Some PROCESSING"
    by (simp add: startup_def start_generation_job_def create_job_def process_job_begin_def
          update_job_status_def get_job_def new_job_def updated_job_def Let_def)
  obtain s' where s': "step ?ev s = Some s'"
    and r': "map_option status (get_job ''job_abc'' (store s')) = Some COMPLETED"
    using t r
    by (auto simp: process_job_logo_def get_job_update Let_def)
  from r obtain a where a: "get_job ''job_abc'' (store s) = Some a" "status a = PROCESSING" by auto
  from r' obtain b where b: "get_job ''job_abc'' (store s') = Some b" "status b = COMPLETED" by auto
  from status_only_moves_forward [OF s s' a(1) b(1)] s s' a b show ?thesis by blast
qed

subsection \<open>Cancelling\<close>

lemma updated_error [simp]:
  "error_message (updated_job t st p l v m r) =
     (case m of None \<Rightarrow> error_message r | Some x \<Rightarrow> Some x)"
  by (simp add: updated_job_fields)

lemma updated_progress [simp]:
  "progress (updated_job t st p l v m r) =
     (case p of Some x \<Rightarrow> x | None \<Rightarrow> if st = COMPLETED \<or> st = FAILED then 100 else progress r)"
  by (simp add: updated_job_fields)

text \<open>
  C4 as stated fails in the error message: the message that \<open>cancel_job\<close> persists is
  \<open>Job cancelled by user\<close>, not \<open>cancelled\<close>.
\<close>

theorem cancel_job_message_is_not_cancelled:
  "active_jobs (snd (start_generation_job \<lparr>now = ''t0'', wr = Written\<rparr> ''abc'' ''tea'' False ''ann''
                       (startup Missing))) ''job_abc'' \<noteq> None
   \<and> map_option error_message
        (get_job ''job_abc''
          (store (snd (cancel_job \<lparr>now = ''t1'', wr = Written\<rparr> ''job_abc''
                         (snd (start_generation_job \<lparr>now = ''t0'', wr = Written\<rparr> ''abc'' ''tea'' False
                                 ''ann'' (startup Missing)))))))
       = Some (Some ''Job cancelled by user'')
   \<and> ''Job cancelled by user'' \<noteq> ''cancelled''"
  by (simp add: startup_def start_generation_job_def create_job_def cancel_job_def
        update_job_status_def updated_job_def get_job_def new_job_def Let_def)

text \<open>
  C4, amended. For a job id that is in the active registry and whose record is in the
  store, \<open>cancel_job\<close> (when its write goes through) returns \<open>True\<close>, removes the id
  from the registry, and the record becomes the old one with status Failed, error message
  \<open>Job cancelled by user\<close>, progress 100 and \<open>completed_at\<close> stamped.
\<close>

theorem cancel_job_active:
  assumes "active_jobs s jid \<noteq> None" and "get_job jid (store s) = Some r" and "wr e = Written"
  shows "fst (cancel_job e jid s)
       \<and> active_jobs (snd (cancel_job e jid s)) jid = None
       \<and> get_job jid (store (snd (cancel_job e jid s))) =
           Some (r\<lparr>status := FAILED, progress := 100,
                   error_message := Some ''Job cancelled by user'',
                   completed_at := Some (now e)\<rparr>)"
  using assms by (simp add: cancel_job_def get_job_update updated_job_fields)

text \<open>C4, amended, on a job that has just been started.\<close>

theorem cancel_job_active_witness:
  "active_jobs (snd (start_generation_job \<lparr>now = ''t0'', wr = Written\<rparr> ''abc'' ''tea'' False ''ann''
                       (startup Missing))) ''job_abc'' \<noteq> None
   \<and> fst (cancel_job \<lparr>now = ''t1'', wr = Written\<rparr> ''job_abc''
            (snd (start_generation_job \<lparr>now = ''t0'', wr = Written\<rparr> ''abc'' ''tea'' False ''ann''
                    (startup Missing))))
   \<and> get_job ''job_abc''
        (store (snd (cancel_job \<lparr>now = ''t1'', wr = Written\<rparr> ''job_abc''
                       (snd (start_generation_job \<lparr>now = ''t0'', wr = Written\<rparr> ''abc'' ''tea'' False
                               ''ann'' (startup Missing))))))
       = Some ((new_job ''t0'' ''job_abc'' ''tea'' LOGO ''ann'')
                 \<lparr>status := FAILED, progress := 100,
                  error_message := Some ''Job cancelled by user'',
                  completed_at := Some ''t1''\<rparr>)"
proof -
  let ?s = "snd (start_generation_job \<lparr>now = ''t0'', wr = Written\<rparr> ''abc'' ''tea'' False ''ann''
                  (startup Missing))"
  have a: "active_jobs ?s ''job_abc'' \<noteq> None"
    by (simp add: startup_def start_generation_job_def create_job_def Let_def)
  have g: "get_job ''job_abc'' (store ?s) = Some (new_job ''t0'' ''job_abc'' ''tea'' LOGO ''ann'')"
    by (simp add: startup_def start_generation_job_def create_job_def get_job_def new_job_def Let_def)
  have w: "wr \<lparr>now = ''t1'', wr = Written\<rparr> = Written" by simp
  show ?thesis
    using a cancel_job_active [OF a g w] by simp
qed

subsection \<open>Finished jobs\<close>

lemma done_step:
  assumes "runner_inv s" and "step ev s = Some s'" and "tasks s jid = Some Done"
  shows "tasks s' jid = Some Done
       \<and> (get_job jid (store s') = get_job jid (store s) \<or> get_job jid (store s') = None)
       \<and> video_calls jid s' = video_calls jid s"
proof -
  from assms(1,3) have na: "active_jobs s jid = None"
    using inv_active [OF assms(1), of jid] by auto
  have rec: "get_job jid (store s') = get_job jid (store s) \<or> get_job jid (store s') = None"
  proof (cases "get_job jid (store s')")
    case None
    then show ?thesis by simp
  next
    case (Some r')
    show ?thesis
    proof (cases "get_job jid (store s)")
      case (Some r)
      from step_store [OF assms(2) \<open>get_job jid (store s') = Some r'\<close> Some] assms(3) na
      have "r' = r" by auto
      with Some \<open>get_job jid (store s') = Some r'\<close> show ?thesis by simp
    next
      case None
      have False
      proof (cases ev)
        case (Start e h p g u)
        with assms(2,3) have "jid \<noteq> ''job_'' @ h" and "s' = snd (start_generation_job e h p g u s)"
          by (auto split: if_splits)
        with Some None show False
          by (auto simp: store_start dest: get_job_create_old)
      next
        case (Run e1 e2 j)
        with assms(2) Some None show False
          by (auto simp: process_job_begin_def Let_def split: option.splits task.splits
                   dest!: get_job_update2_old)
      next
        case (LogoResult e1 e2 j res)
        with assms(2) Some None show False
          by (auto simp: process_job_logo_def Let_def split: option.splits task.splits sum.splits if_splits
                   dest!: get_job_update2_old get_job_update_old)
      next
        case (VideoResult e1 e2 j res)
        with assms(2) Some None show False
          by (auto simp: process_job_video_def Let_def split: option.splits task.splits sum.splits
                   dest!: get_job_update2_old get_job_update_old)
      next
        case (Cancel e j)
        with assms(2) Some None show False
          by (auto simp: cancel_job_def split: if_splits dest!: get_job_update_old)
      qed
      then show ?thesis ..
    qed
  qed
  have rest: "tasks s' jid = Some Done \<and> video_calls jid s' = video_calls jid s"
    using assms(2,3) na
    by (cases ev)
       (auto simp: start_generation_job_def process_job_begin_def process_job_logo_def
             process_job_video_def cancel_job_def finish_def video_calls_def Let_def split_def
             split: if_splits option.splits task.splits sum.splits)
  from rec rest show ?thesis by simp
qed

lemma done_run:
  assumes "runner_inv s" and "run evs s = Some s'" and "tasks s jid = Some Done"
  shows "tasks s' jid = Some Done
       \<and> (get_job jid (store s') = get_job jid (store s) \<or> get_job jid (store s') = None)
       \<and> video_calls jid s' = video_calls jid s"
  using assms
proof (induction evs arbitrary: s)
  case Nil
  then show ?case by simp
next
  case (Cons ev evs)
  from Cons.prems(2) obtain s1 where s1: "step ev s = Some s1" and r: "run evs s1 = Some s'"
    by (auto split: option.splits)
  from done_step [OF Cons.prems(1) s1 Cons.prems(3)]
  have d: "tasks s1 jid = Some Done"
    and g: "get_job jid (store s1) = get_job jid (store s) \<or> get_job jid (store s1) = None"
    and v: "video_calls jid s1 = video_calls jid s" by simp_all
  from Cons.IH [OF inv_step [OF Cons.prems(1) s1] r d] g v show ?case by auto
qed

subsection \<open>The outcomes of the pipeline\<close>

text \<open>
  C7. A job whose task awaits the logo call, in any state that a run of the system
  reaches, and whose logo call then raises with \<open>cause\<close>: once the update is written,
  the record of the job has status Failed, the error message
  \<open>Logo generation failed: cause\<close>, and neither a logo nor a video; the job has left
  the active registry; no video call has been handed to the executor for it; and in every
  continuation of the run the record (as long as the file still loads) stays as it is and
  no video call is made for the job.
\<close>

theorem logo_failure_fails_job:
  assumes "run evs (startup f0) = Some s"
    and "tasks s jid = Some (AwaitLogo p g)"
    and "get_job jid (store s) = Some r"
    and "wr e1 = Written"
    and "step (LogoResult e1 e2 jid (Inl cause)) s = Some s'"
    and "run evs' s' = Some s''"
  shows "(\<exists>r'. get_job jid (store s') = Some r'
            \<and> status r' = FAILED
            \<and> error_message r' = Some (''Logo generation failed: '' @ cause)
            \<and> logo_url r' = None \<and> video_url r' = None)
       \<and> active_jobs s' jid = None
       \<and> video_calls jid s' = []
       \<and> (get_job jid (store s'') = get_job jid (store s') \<or> get_job jid (store s'') = None)
       \<and> video_calls jid s'' = []"
proof -
  have inv: "runner_inv s" using assms(1) by (rule inv_reachable)
  from assms(2,5) have s': "s' = process_job_logo e1 e2 jid p g (Inl cause) s" by simp
  from inv_task_ok [OF inv assms(2)] assms(3)
  have r: "logo_url r = None" "video_url r = None" by simp_all
  have rec: "get_job jid (store s') =
      Some (updated_job (now e1) FAILED None None None
              (Some (''Logo generation failed: '' @ cause)) r)"
    using s' assms(3,4) by (simp add: process_job_logo_def get_job_update)
  have d: "tasks s' jid = Some Done" and a: "active_jobs s' jid = None"
    using s' by (simp_all add: process_job_logo_def finish_def)
  have v: "video_calls jid s' = []"
    using inv_calls [OF inv, of jid] assms(2) s'
    by (simp add: process_job_logo_def finish_def video_calls_def)
  have inv': "runner_inv s'" using inv assms(5) by (rule inv_step)
  from done_run [OF inv' assms(6) d] rec r a v show ?thesis by simp
qed

text \<open>C7 on a run: the logo call of a freshly started job raises.\<close>

theorem logo_failure_fails_job_witness:
  "\<exists>s s' r'.
     run [Start \<lparr>now = ''t0'', wr = Written\<rparr> ''abc'' ''tea'' True ''ann'',
          Run \<lparr>now = ''t1'', wr = Written\<rparr> \<lparr>now = ''t2'', wr = Written\<rparr> ''job_abc'']
         (startup Missing) = Some s
   \<and> tasks s ''job_abc'' = Some (AwaitLogo ''tea'' True)
   \<and> step (LogoResult \<lparr>now = ''t3'', wr = Written\<rparr> \<lparr>now = ''t4'', wr = Written\<rparr> ''job_abc''
             (Inl ''500: no image'')) s = Some s'
   \<and> get_job ''job_abc'' (store s') = Some r'
   \<and> status r' = FAILED
   \<and> error_message r' = Some ''Logo generation failed: 500: no image''
   \<and> logo_url r' = None \<and> video_url r' = None
   \<and> video_calls ''job_abc'' s' = []"
proof -
  let ?evs = "[Start \<lparr>now = ''t0'', wr = Written\<rparr> ''abc'' ''tea'' True ''ann'',
               Run \<lparr>now = ''t1'', wr = Written\<rparr> \<lparr>now = ''t2'', wr = Written\<rparr> ''job_abc'']"
  let ?e1 = "\<lparr>now = ''t3'', wr = Written\<rparr>"
  let ?ev = "LogoResult ?e1 \<lparr>now = ''t4'', wr = Written\<rparr> ''job_abc'' (Inl ''500: no image'')"
  obtain s where s: "run ?evs (startup Missing) = Some s"
    and t: "tasks s ''job_abc'' = Some (AwaitLogo ''tea'' True)"
    and r: "get_job ''job_abc'' (store s) \<noteq> None"
    by (simp add: startup_def start_generation_job_def create_job_def process_job_begin_def
          update_job_status_def get_job_def new_job_def updated_job_def Let_def)
  from r obtain a where a: "get_job ''job_abc'' (store s) = Some a" by auto
  obtain s' where s': "step ?ev s = Some s'" using t by simp
  have w: "wr ?e1 = Written" by simp
  have e: "run [] s' = Some s'" by simp
  from logo_failure_fails_job [OF s t a w s' e] s t s' show ?thesis by auto
qed

text \<open>
  C8. A job whose task awaits the video call (it is there only after a start with
  \<open>generate_video\<close> and a logo call that returned \<open>logo\<close>), in any state that a run of
  the system reaches, and whose video call then raises: once the update is written, the
  record of the job has status Completed, progress 100, the logo \<open>logo\<close>, no video, and
  the error message it had; the job has left the active registry; and in every
  continuation of the run the record (as long as the file still loads) stays as it is.
\<close>

theorem video_failure_completes_job:
  assumes "run evs (startup f0) = Some s"
    and "tasks s jid = Some (AwaitVideo p logo)"
    and "get_job jid (store s) = Some r"
    and "wr e1 = Written"
    and "step (VideoResult e1 e2 jid (Inl cause)) s = Some s'"
    and "run evs' s' = Some s''"
  shows "(\<exists>r'. get_job jid (store s') = Some r'
            \<and> status r' = COMPLETED \<and> progress r' = 100
            \<and> logo_url r' = Some logo \<and> video_url r' = None
            \<and> error_message r' = error_message r)
       \<and> active_jobs s' jid = None
       \<and> (get_job jid (store s'') = get_job jid (store s') \<or> get_job jid (store s'') = None)"
proof -
  have inv: "runner_inv s" using assms(1) by (rule inv_reachable)
  from assms(2,5) have s': "s' = process_job_video e1 e2 jid logo (Inl cause) s" by simp
  from inv_task_ok [OF inv assms(2)] assms(3)
  have r: "video_url r = None" by simp
  have rec: "get_job jid (store s') =
      Some (updated_job (now e1) COMPLETED (Some 100) (Some logo) None None r)"
    using s' assms(3,4) by (simp add: process_job_video_def get_job_update)
  have d: "tasks s' jid = Some Done" and a: "active_jobs s' jid = None"
    using s' by (simp_all add: process_job_video_def finish_def)
  have inv': "runner_inv s'" using inv assms(5) by (rule inv_step)
  from done_run [OF inv' assms(6) d] rec r a show ?thesis by simp
qed

text \<open>C8 on a run: the logo call returns and the video call raises.\<close>

theorem video_failure_completes_job_witness:
  "\<exists>s s' r'.
     run [Start \<lparr>now = ''t0'', wr = Written\<rparr> ''abc'' ''tea'' True ''ann'',
          Run \<lparr>now = ''t1'', wr = Written\<rparr> \<lparr>now = ''t2'', wr = Written\<rparr> ''job_abc'',
          LogoResult \<lparr>now = ''t3'', wr = Written\<rparr> \<lparr>now = ''t4'', wr = Written\<rparr> ''job_abc''
             (Inr ''/output/logo_1.png'')]
         (startup Missing) = Some s
   \<and> tasks s ''job_abc'' = Some (AwaitVideo ''tea'' ''/output/logo_1.png'')
   \<and> step (VideoResult \<lparr>now = ''t5'', wr = Written\<rparr> \<lparr>now = ''t6'', wr = Written\<rparr> ''job_abc''
             (Inl ''500: Video generation failed'')) s = Some s'
   \<and> get_job ''job_abc'' (store s') = Some r'
   \<and> status r' = COMPLETED \<and> progress r' = 100
   \<and> logo_url r' = Some ''/output/logo_1.png'' \<and> video_url r' = None"
proof -
  let ?evs = "[Start \<lparr>now = ''t0'', wr = Written\<rparr> ''abc'' ''tea'' True ''ann'',
          Run \<lparr>now = ''t1'', wr = Written\<rparr> \<lparr>now = ''t2'', wr = Written\<rparr> ''job_abc'',
          LogoResult \<lparr>now = ''t3'', wr = Written\<rparr> \<lparr>now = ''t4'', wr = Written\<rparr> ''job_abc''
             (Inr ''/output/logo_1.png'')]"
  let ?e1 = "\<lparr>now = ''t5'', wr = Written\<rparr>"
  let ?ev = "VideoResult ?e1 \<lparr>now = ''t6'', wr = Written\<rparr> ''job_abc''
               (Inl ''500: Video generation failed'')"
  obtain s where s: "run ?evs (startup Missing) = Some s"
    and t: "tasks s ''job_abc'' = Some (AwaitVideo ''tea'' ''/output/logo_1.png'')"
    and r: "get_job ''job_abc'' (store s) \<noteq> None"
    by (simp add: startup_def start_generation_job_def create_job_def process_job_begin_def
          process_job_logo_def
          update_job_status_def get_job_def new_job_def updated_job_def Let_def)
  from r obtain a where a: "get_job ''job_abc'' (store s) = Some a" by auto
  obtain s' where s': "step ?ev s = Some s'" using t by simp
  have w: "wr ?e1 = Written" by simp
  have e: "run [] s' = Some s'" by simp
  from video_failure_completes_job [OF s t a w s' e] s t s' show ?thesis by auto
qed

end
